theory Spec2Isabelle
  imports Main
begin

section \<open>The real-time layer of the chat backend (backend/server.js)\<close>

subsection \<open>JavaScript values and strings\<close>

text \<open>
  The values in the payloads that clients send are taken to be JavaScript primitives:
  user ids, conversation ids, call types and call ids arrive as numbers or strings, and a
  property that was never assigned reads as \<open>undefined\<close>; objects and arrays in the place
  of an id are not modelled. \<open>JNum i\<close> is the integer-valued number \<open>i\<close>; every
  integer up to \<open>2^53\<close> in magnitude is a double, and for an integer that is not, what a
  client that writes it gets across is the double nearest to it. \<open>JFloat s\<close> is a number
  that is not an integer (a fraction, \<open>NaN\<close>), given by the string \<open>s\<close> that JavaScript
  prints for it, which determines it. Structural equality on this datatype is the
  SameValueZero comparison that a JavaScript \<open>Map\<close> uses for its keys.
\<close>

datatype jsval = JUndefined | JNull | JBool bool | JNum int | JFloat string | JStr string

text \<open>
  The decimal digits of a natural number. This is how JavaScript prints an integer below
  \<open>2^53\<close>, and \<open>Date.now()\<close> is one.
\<close>

fun digits :: "nat \<Rightarrow> string" where
  "digits n =
     (if n < 10 then [''0123456789'' ! n]
      else digits (n div 10) @ [''0123456789'' ! (n mod 10)])"

declare digits.simps [simp del]

text \<open>
  \<open>Number::toString\<close> on a non-negative integer. The integer is first the double nearest
  to it (53 significant bits, ties to the even mantissa). Below \<open>2^53\<close> that is the integer
  itself, printed in full. From there on JavaScript prints the shortest decimal that reads
  back as the same double (the closest one when several do, the even one on a tie): in
  full, with zeros for the digits dropped, up to 21 digits, and in exponent form beyond.
\<close>

fun bit_length :: "nat \<Rightarrow> nat" where
  "bit_length n = (if n = 0 then 0 else Suc (bit_length (n div 2)))"

declare bit_length.simps [simp del]

definition to_double :: "nat \<Rightarrow> nat" where
  "to_double n =
     (if bit_length n \<le> 53 then n
      else let e = bit_length n - 53; q = n div 2 ^ e; r = n mod 2 ^ e; h = 2 ^ (e - 1)
           in (if h < r \<or> (r = h \<and> odd q) then q + 1 else q) * 2 ^ e)"

text \<open>
  Whether the decimal \<open>c\<close> reads back as the double \<open>v\<close> (of more than 53 bits): \<open>c\<close> is
  within half the gap to the neighbouring double on its side, the bound included when the
  mantissa of \<open>v\<close> is even.
\<close>

definition reads_as :: "nat \<Rightarrow> nat \<Rightarrow> bool" where
  "reads_as v c =
     (let e = bit_length v - 53; q = v div 2 ^ e;
          gap = (if c < v \<and> q = 2 ^ 52 then 2 ^ (e - 1) else 2 ^ e);
          d = (if c < v then v - c else c - v)
      in if even q then 2 * d \<le> gap else 2 * d < gap)"

text \<open>
  The shortest decimal for \<open>v\<close>: with ever more leading digits kept (all but \<open>Suc j\<close>,
  then all but \<open>j\<close>, ...), the first multiple of the power of ten, below or above \<open>v\<close>,
  that reads back as \<open>v\<close>.
\<close>

fun shortest :: "nat \<Rightarrow> nat \<Rightarrow> nat" where
  "shortest v 0 = v"
| "shortest v (Suc j) =
     (let p = 10 ^ Suc j; lo = (v div p) * p; hi = lo + p
      in if reads_as v lo \<and> reads_as v hi
         then (if v - lo < hi - v then lo
               else if hi - v < v - lo then hi
               else if even (v div p) then lo else hi)
         else if reads_as v lo then lo
         else if reads_as v hi then hi
         else shortest v j)"

definition strip_zeros :: "string \<Rightarrow> string" where
  "strip_zeros s = rev (dropWhile (\<lambda>c. c = CHR ''0'') (rev s))"

definition number_toString :: "nat \<Rightarrow> string" where
  "number_toString n =
     (let v = to_double n in
      if 2 ^ 1024 \<le> v then ''Infinity''
      else if bit_length v \<le> 53 then digits v
      else let c = shortest v (length (digits v) - 1); s = digits c in
           if length s \<le> 21 then s
           else (case strip_zeros s of
                   [] \<Rightarrow> s
                 | [d] \<Rightarrow> d # ''e+'' @ digits (length s - 1)
                 | d # ds \<Rightarrow> d # ''.'' @ ds @ ''e+'' @ digits (length s - 1)))"

text \<open>The string conversion that a template literal applies to an interpolated value.\<close>

fun toString :: "jsval \<Rightarrow> string" where
  "toString JUndefined = ''undefined''"
| "toString JNull = ''null''"
| "toString (JBool b) = (if b then ''true'' else ''false'')"
| "toString (JNum i) =
     (if i < 0 then ''-'' @ number_toString (nat (- i)) else number_toString (nat i))"
| "toString (JFloat s) = s"
| "toString (JStr s) = s"

text \<open>The room name \<open>`conversation_${conversationId}`\<close>.\<close>

definition conversation_room :: "jsval \<Rightarrow> string" where
  "conversation_room conversationId = ''conversation_'' @ toString conversationId"

subsection \<open>The \<open>activeUsers\<close> map\<close>

text \<open>
  \<open>const activeUsers = new Map()\<close> maps a user id to one socket id. A JavaScript
  \<open>Map\<close> iterates in insertion order, and \<open>set\<close> on a key already present
  replaces the value where the key stands; so the map is an association list.
\<close>

type_synonym active_users = "(jsval \<times> string) list"

fun map_set :: "active_users \<Rightarrow> jsval \<Rightarrow> string \<Rightarrow> active_users" where
  "map_set [] k v = [(k, v)]"
| "map_set ((k', v') # m) k v =
     (if k' = k then (k, v) # m else (k', v') # map_set m k v)"

definition map_get :: "active_users \<Rightarrow> jsval \<Rightarrow> string option" where
  "map_get m k = map_of m k"

definition map_delete :: "active_users \<Rightarrow> jsval \<Rightarrow> active_users" where
  "map_delete m k = filter (\<lambda>e. fst e \<noteq> k) m"

text \<open>
  \<open>if (targetSocketId)\<close>: the result of \<open>activeUsers.get\<close> is truthy when the key
  is present and the stored string is not empty.
\<close>

fun truthy :: "string option \<Rightarrow> bool" where
  "truthy None = False"
| "truthy (Some s) = (s \<noteq> [])"

text \<open>
  The connections that the program resolves a user to: every point-to-point handler reads
  \<open>activeUsers.get(toUserId)\<close> and sends to that one socket id when it is truthy.
\<close>

definition resolve :: "active_users \<Rightarrow> jsval \<Rightarrow> string set" where
  "resolve m userId =
     (case map_get m userId of
        None \<Rightarrow> {}
      | Some sockId \<Rightarrow> if truthy (Some sockId) then {sockId} else {})"

subsection \<open>Events and emissions\<close>

text \<open>
  The \<open>data\<close> object of a \<open>send_message\<close> event; the handler reads \<open>conversation_id\<close>
  only, which is \<open>undefined\<close> when the payload has no such property.
\<close>

record msg_data =
  conversation_id :: jsval
  sender_id :: jsval
  content :: jsval

text \<open>The events the server sends, each with its payload.\<close>

datatype out_event =
    UserStatusChange jsval string
  | NewMessage msg_data
  | UserTyping jsval jsval
  | UserStopTyping jsval
  | IncomingCall jsval jsval jsval string
  | CallFailed string
  | CallAccepted jsval
  | CallRejected jsval
  | CallEnded jsval

text \<open>
  The four ways the handlers send: \<open>socket.emit\<close>, \<open>socket.broadcast.emit\<close>,
  \<open>socket.to(room).emit\<close> and \<open>io.to(room).emit\<close>. The first argument of the
  socket-based ones is the id of the sending socket.
\<close>

datatype emission =
    SocketEmit string out_event
  | SocketBroadcast string out_event
  | SocketTo string string out_event
  | IoTo string out_event

text \<open>
  The events a client (or the transport) raises on a socket; the first argument is the
  socket id. The payload of \<open>send_message\<close> is \<open>None\<close> when the client sent none, or
  sent \<open>null\<close>: the handler guards that case. The typing and call events are taken with
  their payload object present: its fields are the arguments, \<open>undefined\<close> for a field the
  payload lacks. \<open>InitiateCall\<close> carries as its last argument the value that \<open>Date.now()\<close>
  returns while the event is handled.
\<close>

datatype event =
    Connection string
  | UserOnline string jsval
  | JoinConversation string jsval
  | LeaveConversation string jsval
  | SendMessage string "msg_data option"
  | TypingStart string jsval jsval jsval
  | TypingStop string jsval jsval
  | InitiateCall string jsval jsval jsval nat
  | AcceptCall string jsval jsval
  | RejectCall string jsval jsval
  | EndCall string jsval jsval
  | Disconnect string

subsection \<open>The state of the server\<close>

text \<open>
  \<open>activeUsers\<close> is the program's own table. \<open>connected\<close> and \<open>rooms\<close> are the state
  of the socket.io server the handlers call into: the sockets of the namespace and the
  adapter's relation between room names and socket ids. \<open>socket_userId\<close> is the property
  \<open>userId\<close> of each socket object, which \<open>initiate_call\<close> reads. \<open>messages_table\<close> holds
  the rows of the \<open>messages\<close> table of database/init.sql, which the HTTP routes write
  through \<open>pool\<close>.
\<close>

record server =
  activeUsers :: active_users
  connected :: "string set"
  rooms :: "(string \<times> string) set"
  socket_userId :: "string \<Rightarrow> jsval"
  messages_table :: "msg_data list"

definition init :: server where
  "init = \<lparr> activeUsers = [], connected = {}, rooms = {},
            socket_userId = (\<lambda>_. JUndefined), messages_table = [] \<rparr>"

text \<open>
  Modelled from the spec: the socket.io library is not part of the repository; its room
  operations follow sections 4.2 and 4.3 of the specification (join is an idempotent add,
  leave an idempotent remove, a room-scoped send from a socket excludes that socket, and
  a broadcast reaches every other connected socket).
\<close>

definition members :: "server \<Rightarrow> string \<Rightarrow> string set" where
  "members st room = snd ` {p \<in> rooms st. fst p = room}"

fun recipients :: "server \<Rightarrow> emission \<Rightarrow> string set" where
  "recipients st (SocketEmit sid ev) = {sid}"
| "recipients st (SocketBroadcast sid ev) = connected st - {sid}"
| "recipients st (SocketTo sid room ev) = members st room - {sid}"
| "recipients st (IoTo room ev) = members st room"

definition socket_join :: "server \<Rightarrow> string \<Rightarrow> string \<Rightarrow> server" where
  "socket_join st sid room = st\<lparr>rooms := insert (room, sid) (rooms st)\<rparr>"

definition socket_leave :: "server \<Rightarrow> string \<Rightarrow> string \<Rightarrow> server" where
  "socket_leave st sid room = st\<lparr>rooms := rooms st - {(room, sid)}\<rparr>"

text \<open>A new socket is in the namespace and in the room named by its own id.\<close>

definition connection :: "server \<Rightarrow> string \<Rightarrow> server" where
  "connection st sid =
     st\<lparr>connected := insert sid (connected st),
        rooms := insert (sid, sid) (rooms st),
        socket_userId := (socket_userId st)(sid := JUndefined)\<rparr>"

text \<open>Before the \<open>disconnect\<close> handler runs, the socket has left the namespace and every room.\<close>

definition socket_close :: "server \<Rightarrow> string \<Rightarrow> server" where
  "socket_close st sid =
     st\<lparr>connected := connected st - {sid},
        rooms := {p \<in> rooms st. snd p \<noteq> sid}\<rparr>"

subsection \<open>The handlers\<close>

definition user_online :: "server \<Rightarrow> string \<Rightarrow> jsval \<Rightarrow> server \<times> emission list" where
  "user_online st sid userId =
     (st\<lparr>activeUsers := map_set (activeUsers st) userId sid\<rparr>,
      [SocketBroadcast sid (UserStatusChange userId ''online'')])"

definition join_conversation :: "server \<Rightarrow> string \<Rightarrow> jsval \<Rightarrow> server \<times> emission list" where
  "join_conversation st sid conversationId =
     (socket_join st sid (conversation_room conversationId), [])"

definition leave_conversation :: "server \<Rightarrow> string \<Rightarrow> jsval \<Rightarrow> server \<times> emission list" where
  "leave_conversation st sid conversationId =
     (socket_leave st sid (conversation_room conversationId), [])"

text \<open>
  With no payload, or \<open>null\<close>, reading \<open>data.conversation_id\<close> throws a \<open>TypeError\<close>;
  the handler's \<open>catch\<close> logs it, and nothing is emitted.
\<close>

definition send_message ::
  "server \<Rightarrow> string \<Rightarrow> msg_data option \<Rightarrow> server \<times> emission list" where
  "send_message st sid data =
     (case data of
        None \<Rightarrow> (st, [])
      | Some d \<Rightarrow>
          (st, [SocketTo sid (conversation_room (conversation_id d)) (NewMessage d)]))"

definition typing_start ::
  "server \<Rightarrow> string \<Rightarrow> jsval \<Rightarrow> jsval \<Rightarrow> jsval \<Rightarrow> server \<times> emission list" where
  "typing_start st sid conversationId userId userName =
     (st, [SocketTo sid (conversation_room conversationId) (UserTyping userId userName)])"

definition typing_stop ::
  "server \<Rightarrow> string \<Rightarrow> jsval \<Rightarrow> jsval \<Rightarrow> server \<times> emission list" where
  "typing_stop st sid conversationId userId =
     (st, [SocketTo sid (conversation_room conversationId) (UserStopTyping userId)])"

definition initiate_call ::
  "server \<Rightarrow> string \<Rightarrow> jsval \<Rightarrow> jsval \<Rightarrow> jsval \<Rightarrow> nat \<Rightarrow> server \<times> emission list" where
  "initiate_call st sid toUserId callType conversationId now =
     (case map_get (activeUsers st) toUserId of
        Some targetSocketId \<Rightarrow>
          if truthy (Some targetSocketId)
          then (st, [IoTo targetSocketId
                       (IncomingCall (socket_userId st sid) callType conversationId
                          (digits now))])
          else (st, [SocketEmit sid (CallFailed ''User offline'')])
      | None \<Rightarrow> (st, [SocketEmit sid (CallFailed ''User offline'')]))"

definition accept_call :: "server \<Rightarrow> string \<Rightarrow> jsval \<Rightarrow> jsval \<Rightarrow> server \<times> emission list" where
  "accept_call st sid callId toUserId =
     (case map_get (activeUsers st) toUserId of
        Some targetSocketId \<Rightarrow>
          if truthy (Some targetSocketId)
          then (st, [IoTo targetSocketId (CallAccepted callId)])
          else (st, [])
      | None \<Rightarrow> (st, []))"

definition reject_call :: "server \<Rightarrow> string \<Rightarrow> jsval \<Rightarrow> jsval \<Rightarrow> server \<times> emission list" where
  "reject_call st sid callId toUserId =
     (case map_get (activeUsers st) toUserId of
        Some targetSocketId \<Rightarrow>
          if truthy (Some targetSocketId)
          then (st, [IoTo targetSocketId (CallRejected callId)])
          else (st, [])
      | None \<Rightarrow> (st, []))"

definition end_call :: "server \<Rightarrow> string \<Rightarrow> jsval \<Rightarrow> jsval \<Rightarrow> server \<times> emission list" where
  "end_call st sid callId toUserId =
     (case map_get (activeUsers st) toUserId of
        Some targetSocketId \<Rightarrow>
          if truthy (Some targetSocketId)
          then (st, [IoTo targetSocketId (CallEnded callId)])
          else (st, [])
      | None \<Rightarrow> (st, []))"

text \<open>
  The cleanup loop of the \<open>disconnect\<close> handler: it walks the entries in insertion order
  and, at the first entry whose socket id is the closing one, deletes that key,
  broadcasts, and breaks.
\<close>

fun disconnect_loop ::
  "active_users \<Rightarrow> string \<Rightarrow> active_users \<Rightarrow> active_users \<times> emission list" where
  "disconnect_loop [] sid m = (m, [])"
| "disconnect_loop ((userId, sockId) # entries) sid m =
     (if sockId = sid
      then (map_delete m userId, [SocketBroadcast sid (UserStatusChange userId ''offline'')])
      else disconnect_loop entries sid m)"

definition disconnect :: "server \<Rightarrow> string \<Rightarrow> server \<times> emission list" where
  "disconnect st sid =
     (case disconnect_loop (activeUsers st) sid (activeUsers st) of
        (m, out) \<Rightarrow> (st\<lparr>activeUsers := m\<rparr>, out))"

subsection \<open>Dispatch\<close>

text \<open>
  The handlers of a socket are registered when it connects and run only while it is
  connected. A run of the server handles the events in order and collects what is emitted.
\<close>

fun socket_of :: "event \<Rightarrow> string" where
  "socket_of (Connection s) = s"
| "socket_of (UserOnline s _) = s"
| "socket_of (JoinConversation s _) = s"
| "socket_of (LeaveConversation s _) = s"
| "socket_of (SendMessage s _) = s"
| "socket_of (TypingStart s _ _ _) = s"
| "socket_of (TypingStop s _ _) = s"
| "socket_of (InitiateCall s _ _ _ _) = s"
| "socket_of (AcceptCall s _ _) = s"
| "socket_of (RejectCall s _ _) = s"
| "socket_of (EndCall s _ _) = s"
| "socket_of (Disconnect s) = s"

fun handle :: "server \<Rightarrow> event \<Rightarrow> server \<times> emission list" where
  "handle st (Connection s) = (connection st s, [])"
| "handle st (UserOnline s userId) = user_online st s userId"
| "handle st (JoinConversation s c) = join_conversation st s c"
| "handle st (LeaveConversation s c) = leave_conversation st s c"
| "handle st (SendMessage s d) = send_message st s d"
| "handle st (TypingStart s c u n) = typing_start st s c u n"
| "handle st (TypingStop s c u) = typing_stop st s c u"
| "handle st (InitiateCall s u t c now) = initiate_call st s u t c now"
| "handle st (AcceptCall s callId u) = accept_call st s callId u"
| "handle st (RejectCall s callId u) = reject_call st s callId u"
| "handle st (EndCall s callId u) = end_call st s callId u"
| "handle st (Disconnect s) = disconnect (socket_close st s) s"

definition is_connection :: "event \<Rightarrow> bool" where
  "is_connection e = (case e of Connection _ \<Rightarrow> True | _ \<Rightarrow> False)"

definition step :: "server \<Rightarrow> event \<Rightarrow> server \<times> emission list" where
  "step st e =
     (if is_connection e
      then (if socket_of e \<in> connected st then (st, []) else handle st e)
      else (if socket_of e \<in> connected st then handle st e else (st, [])))"

fun run :: "server \<Rightarrow> event list \<Rightarrow> server \<times> emission list" where
  "run st [] = (st, [])"
| "run st (e # es) =
     (case step st e of
        (st', out) \<Rightarrow> (case run st' es of (st'', out') \<Rightarrow> (st'', out @ out')))"

subsection \<open>Observing what was emitted\<close>



section \<open>Properties\<close>

subsection \<open>Auxiliary facts\<close>

text \<open>Integers below \<open>2^53\<close> print in full; \<open>10^21\<close> prints in exponent form.\<close>

lemma bit_length_le: "n < 2 ^ k \<Longrightarrow> bit_length n \<le> k"
proof (induction k arbitrary: n)
  case 0
  then show ?case by (simp add: bit_length.simps)
next
  case (Suc k)
  show ?case
  proof (cases "n = 0")
    case True
    then show ?thesis by (simp add: bit_length.simps)
  next
    case False
    have "n div 2 < 2 ^ k"
      using Suc.prems by (simp add: less_mult_imp_div_less mult.commute)
    then have "bit_length (n div 2) \<le> k"
      by (rule Suc.IH)
    with False show ?thesis
      by (subst bit_length.simps) simp
  qed
qed

lemma number_toString_small:
  assumes "n < 2 ^ 53"
  shows "number_toString n = digits n"
proof -
  have b: "bit_length n \<le> 53"
    using assms by (rule bit_length_le)
  have "n < (2::nat) ^ 1024"
    using assms by (rule less_trans) simp
  then have "\<not> (2::nat) ^ 1024 \<le> n"
    by simp
  with b show ?thesis
    by (simp add: number_toString_def to_double_def)
qed

lemma conversation_room_5: "conversation_room (JNum 5) = ''conversation_5''"
  by (simp add: conversation_room_def number_toString_small digits.simps)

lemma toString_1e21: "toString (JNum 1000000000000000000000) = ''1e+21''"
  by (simp add: number_toString_def to_double_def reads_as_def strip_zeros_def Let_def
                bit_length.simps digits.simps)

lemmas handler_defs =
  user_online_def join_conversation_def leave_conversation_def send_message_def
  typing_start_def typing_stop_def initiate_call_def accept_call_def reject_call_def
  end_call_def connection_def socket_close_def socket_join_def socket_leave_def

lemmas run_defs =
  handler_defs disconnect_def step_def is_connection_def init_def map_get_def
  map_delete_def resolve_def conversation_room_5

lemma digits_clock: "digits 1700000000000 = ''1700000000000''"
  by (simp add: digits.simps)

lemma members_iff: "x \<in> members st room \<longleftrightarrow> (room, x) \<in> rooms st"
  by (force simp: members_def)

text \<open>A run, one event or one segment at a time.\<close>

lemma run_Cons_fst: "fst (run st (e # es)) = fst (run (fst (step st e)) es)"
  by (simp split: prod.splits)


lemma run_append_fst: "fst (run st (xs @ ys)) = fst (run (fst (run st xs)) ys)"
  by (induction xs arbitrary: st) (simp_all add: run_Cons_fst del: run.simps(2))

text \<open>The map operations on an association list with distinct keys.\<close>

lemma map_of_map_set: "map_of (map_set m k v) = (map_of m)(k \<mapsto> v)"
  by (induction m) auto

lemma map_get_map_set:
  "map_get (map_set m k v) k' = (if k' = k then Some v else map_get m k')"
  by (simp add: map_get_def map_of_map_set)

lemma keys_map_set: "fst ` set (map_set m k v) = insert k (fst ` set m)"
  by (induction m k v rule: map_set.induct) auto

lemma distinct_map_set:
  "distinct (map fst m) \<Longrightarrow> distinct (map fst (map_set m k v))"
proof (induction m)
  case Nil
  show ?case by simp
next
  case (Cons a m)
  obtain k' v' where a: "a = (k', v')" by (cases a)
  show ?case
  proof (cases "k' = k")
    case True
    with Cons.prems a show ?thesis by simp
  next
    case False
    have "k' \<notin> fst ` set (map_set m k v)"
      using Cons.prems a False by (simp add: keys_map_set)
    with Cons a False show ?thesis by simp
  qed
qed

lemma set_map_set:
  "distinct (map fst m) \<Longrightarrow> set (map_set m k v) = insert (k, v) {e \<in> set m. fst e \<noteq> k}"
proof (induction m k v rule: map_set.induct)
  case (1 k v)
  show ?case by simp
next
  case (2 k' v' m k v)
  show ?case
  proof (cases "k' = k")
    case True
    with "2.prems" show ?thesis by (auto simp: rev_image_eqI)
  next
    case False
    with 2 show ?thesis by auto
  qed
qed

lemma distinct_map_delete:
  "distinct (map fst m) \<Longrightarrow> distinct (map fst (map_delete m k))"
  by (simp add: map_delete_def distinct_map_filter)

lemma map_get_map_delete:
  "map_get (map_delete m k) k' = (if k' = k then None else map_get m k')"
  by (induction m) (auto simp: map_get_def map_delete_def)

lemma map_get_distinct:
  "distinct (map fst m) \<Longrightarrow> (k, v) \<in> set m \<Longrightarrow> map_get m k = Some v"
  by (simp add: map_get_def)

text \<open>
  The cleanup loop finds the first entry, in insertion order, whose socket id is the
  closing one, and stops there.
\<close>

lemma disconnect_loop_find:
  "disconnect_loop entries sid m =
     (case find (\<lambda>e. snd e = sid) entries of
        None \<Rightarrow> (m, [])
      | Some e \<Rightarrow> (map_delete m (fst e),
                   [SocketBroadcast sid (UserStatusChange (fst e) ''offline'')]))"
  by (induction entries sid m rule: disconnect_loop.induct) simp_all

lemma disconnect_find:
  "disconnect st sid =
     (case find (\<lambda>e. snd e = sid) (activeUsers st) of
        None \<Rightarrow> (st, [])
      | Some e \<Rightarrow> (st\<lparr>activeUsers := map_delete (activeUsers st) (fst e)\<rparr>,
                   [SocketBroadcast sid (UserStatusChange (fst e) ''offline'')]))"
  by (simp add: disconnect_def disconnect_loop_find split: option.splits)

subsection \<open>Lemmas about runs\<close>




text \<open>
  An entry that records a closed socket stays as it is while that socket id does not
  connect again and nobody announces the entry's user.
\<close>

lemma step_dangling:
  assumes "distinct (map fst (activeUsers st))"
    and "map_get (activeUsers st) k = Some sid"
    and "sid \<notin> connected st"
    and "e \<noteq> Connection sid" and "\<forall>s. e \<noteq> UserOnline s k"
  shows "distinct (map fst (activeUsers (fst (step st e)))) \<and>
         map_get (activeUsers (fst (step st e))) k = Some sid \<and>
         sid \<notin> connected (fst (step st e))"
proof (cases e)
  case (Disconnect s)
  show ?thesis
  proof (cases "s \<in> connected st")
    case False
    with assms Disconnect show ?thesis by (simp add: step_def is_connection_def)
  next
    case True
    then have ne: "s \<noteq> sid" using assms(3) by auto
    show ?thesis
    proof (cases "find (\<lambda>e. snd e = s) (activeUsers st)")
      case None
      with assms Disconnect True show ?thesis
        by (simp add: step_def is_connection_def disconnect_find socket_close_def)
    next
      case (Some a)
      then have "(fst a, s) \<in> set (activeUsers st)"
        by (auto simp: find_Some_iff)
      then have "map_get (activeUsers st) (fst a) = Some s"
        using assms(1) by (rule map_get_distinct [rotated])
      with assms(2) ne have "fst a \<noteq> k" by auto
      with assms Disconnect True Some show ?thesis
        by (simp add: step_def is_connection_def disconnect_find socket_close_def
                      map_get_map_delete distinct_map_delete)
    qed
  qed
next
  case (UserOnline s u)
  with assms show ?thesis
    by (auto simp: step_def is_connection_def user_online_def map_get_map_set distinct_map_set)
qed (use assms in \<open>auto simp: step_def is_connection_def handler_defs split: option.splits\<close>)

lemma run_dangling:
  assumes "distinct (map fst (activeUsers st))"
    and "map_get (activeUsers st) k = Some sid"
    and "sid \<notin> connected st"
    and "\<forall>e \<in> set es. e \<noteq> Connection sid \<and> (\<forall>s. e \<noteq> UserOnline s k)"
  shows "map_get (activeUsers (fst (run st es))) k = Some sid \<and>
         sid \<notin> connected (fst (run st es))"
  using assms
proof (induction es arbitrary: st)
  case Nil
  then show ?case by simp
next
  case (Cons e es)
  have "distinct (map fst (activeUsers (fst (step st e)))) \<and>
        map_get (activeUsers (fst (step st e))) k = Some sid \<and>
        sid \<notin> connected (fst (step st e))"
    using Cons.prems by (intro step_dangling) auto
  then show ?case
    using Cons.IH [of "fst (step st e)"] Cons.prems(4)
    by (simp add: run_Cons_fst del: run.simps(2))
qed









subsection \<open>The registry of connections\<close>

text \<open>
  C1 (as amended). When \<open>user_online\<close> is handled for two connections announcing the same
  user id, the user resolves to the connection that announced last, and to that one only:
  \<open>activeUsers\<close> keeps one socket id per user, and \<open>set\<close> replaces the id recorded before.
\<close>

theorem user_online_latest_connection_wins:
  assumes "s1 \<in> connected st" and "s2 \<in> connected st" and "s2 \<noteq> []"
  shows "resolve (activeUsers (fst (run st [UserOnline s1 userId, UserOnline s2 userId])))
           userId = {s2}"
  using assms
  by (simp add: step_def is_connection_def user_online_def resolve_def map_get_map_set)

theorem user_online_latest_connection_wins_witness:
  "resolve (activeUsers (fst (run (fst (run init [Connection ''s1'', Connection ''s2'']))
      [UserOnline ''s1'' (JNum 7), UserOnline ''s2'' (JNum 7)]))) (JNum 7) = {''s2''}"
proof -
  have a: "''s1'' \<in> connected (fst (run init [Connection ''s1'', Connection ''s2'']))"
    by (simp add: run_defs)
  have b: "''s2'' \<in> connected (fst (run init [Connection ''s1'', Connection ''s2'']))"
    by (simp add: run_defs)
  have c: "''s2'' \<noteq> []"
    by simp
  show ?thesis
    using user_online_latest_connection_wins [OF a b c] by simp
qed

text \<open>
  C1 as the specification states it fails: after two connections have announced user 7,
  the user does not resolve to both of them.
\<close>

theorem user_online_loses_first_connection:
  "\<not> {''s1'', ''s2''} \<subseteq> resolve (activeUsers (fst (run init
       [Connection ''s1'', Connection ''s2'',
        UserOnline ''s1'' (JNum 7), UserOnline ''s2'' (JNum 7)]))) (JNum 7)"
  by (simp add: run_defs)

text \<open>
  C10. A disconnect removes the entry of at most one user: the handler deletes the first
  entry, in insertion order, whose socket id is the closing one, broadcasts that user
  offline, and stops; when no entry matches nothing changes. Consequently, when a
  connection that was recorded for nobody announces two distinct user ids and then
  disconnects, exactly one offline broadcast is emitted, for one of the two users, whose
  entry is deleted; the other user stays recorded with the id of the closed socket, and
  stays so through all later events, as long as that socket id does not connect again and
  neither user is announced again.
\<close>

theorem disconnect_removes_first_match_only:
  assumes wf: "distinct (map fst (activeUsers st))"
    and conn: "sid \<in> connected st"
    and fresh: "\<forall>e \<in> set (activeUsers st). snd e \<noteq> sid"
    and neq: "u1 \<noteq> u2"
    and later: "\<forall>e \<in> set later. e \<noteq> Connection sid \<and>
                  (\<forall>s. e \<noteq> UserOnline s u1 \<and> e \<noteq> UserOnline s u2)"
  shows "disconnect st0 sid0 =
           (case find (\<lambda>e. snd e = sid0) (activeUsers st0) of
              None \<Rightarrow> (st0, [])
            | Some e \<Rightarrow> (st0\<lparr>activeUsers := map_delete (activeUsers st0) (fst e)\<rparr>,
                         [SocketBroadcast sid0 (UserStatusChange (fst e) ''offline'')])) \<and>
         (\<exists>u u'. (u = u1 \<and> u' = u2 \<or> u = u2 \<and> u' = u1) \<and>
            snd (run st [UserOnline sid u1, UserOnline sid u2, Disconnect sid]) =
              [SocketBroadcast sid (UserStatusChange u1 ''online''),
               SocketBroadcast sid (UserStatusChange u2 ''online''),
               SocketBroadcast sid (UserStatusChange u ''offline'')] \<and>
            map_get (activeUsers
              (fst (run st [UserOnline sid u1, UserOnline sid u2, Disconnect sid]))) u = None \<and>
            map_get (activeUsers
              (fst (run st ([UserOnline sid u1, UserOnline sid u2, Disconnect sid] @ later))))
              u' = Some sid \<and>
            sid \<notin> connected
              (fst (run st ([UserOnline sid u1, UserOnline sid u2, Disconnect sid] @ later))))"
proof
  show "disconnect st0 sid0 =
           (case find (\<lambda>e. snd e = sid0) (activeUsers st0) of
              None \<Rightarrow> (st0, [])
            | Some e \<Rightarrow> (st0\<lparr>activeUsers := map_delete (activeUsers st0) (fst e)\<rparr>,
                         [SocketBroadcast sid0 (UserStatusChange (fst e) ''offline'')]))"
    by (rule disconnect_find)
next
  define m2 where "m2 = map_set (map_set (activeUsers st) u1 sid) u2 sid"
  define st2 where "st2 = st\<lparr>activeUsers := m2\<rparr>"
  define st2c where "st2c = socket_close st2 sid"
  let ?evs = "[UserOnline sid u1, UserOnline sid u2, Disconnect sid]"
  have wf1: "distinct (map fst (map_set (activeUsers st) u1 sid))"
    using wf by (rule distinct_map_set)
  have wf2: "distinct (map fst m2)"
    unfolding m2_def using wf1 by (rule distinct_map_set)
  have set2: "set m2 = insert (u2, sid) (insert (u1, sid)
                 {e \<in> set (activeUsers st). fst e \<noteq> u1 \<and> fst e \<noteq> u2})"
    unfolding m2_def using neq by (auto simp: set_map_set [OF wf1] set_map_set [OF wf])
  have get1: "map_get m2 u1 = Some sid" and get2: "map_get m2 u2 = Some sid"
    using neq by (simp_all add: m2_def map_get_map_set)
  have run_fst: "fst (run st ?evs) = fst (disconnect st2c sid)"
    and run_snd: "snd (run st ?evs) =
       [SocketBroadcast sid (UserStatusChange u1 ''online''),
        SocketBroadcast sid (UserStatusChange u2 ''online'')] @ snd (disconnect st2c sid)"
    using conn
    by (simp_all add: step_def is_connection_def user_online_def st2c_def st2_def m2_def
                 split: prod.splits)
  have au2c: "activeUsers st2c = m2" and conn2c: "sid \<notin> connected st2c"
    by (simp_all add: st2c_def st2_def socket_close_def)
  obtain a where found: "find (\<lambda>e. snd e = sid) m2 = Some a"
    using set2 by (cases "find (\<lambda>e. snd e = sid) m2") (auto simp: find_None_iff)
  then have "a \<in> set m2" and "snd a = sid"
    by (auto simp: find_Some_iff)
  then have a: "a = (u1, sid) \<or> a = (u2, sid)"
    using set2 fresh by auto
  define u where "u = fst a"
  define u' where "u' = (if u = u1 then u2 else u1)"
  have uu: "u = u1 \<and> u' = u2 \<or> u = u2 \<and> u' = u1"
    using a neq by (auto simp: u_def u'_def)
  have disc: "disconnect st2c sid =
      (st2c\<lparr>activeUsers := map_delete m2 u\<rparr>,
       [SocketBroadcast sid (UserStatusChange u ''offline'')])"
    by (simp add: disconnect_find au2c found u_def)
  define st3 where "st3 = st2c\<lparr>activeUsers := map_delete m2 u\<rparr>"
  have st3: "fst (run st ?evs) = st3"
    unfolding run_fst disc st3_def by simp
  have "u' \<noteq> u" using uu neq by auto
  then have get3: "map_get (activeUsers st3) u' = Some sid"
    using uu get1 get2 by (auto simp: st3_def map_get_map_delete)
  have wf3: "distinct (map fst (activeUsers st3))"
    using wf2 by (simp add: st3_def distinct_map_delete)
  have conn3: "sid \<notin> connected st3"
    using conn2c by (simp add: st3_def)
  have later': "\<forall>e \<in> set later. e \<noteq> Connection sid \<and> (\<forall>s. e \<noteq> UserOnline s u')"
    using later uu by auto
  have pers: "map_get (activeUsers (fst (run st3 later))) u' = Some sid \<and>
              sid \<notin> connected (fst (run st3 later))"
    using wf3 get3 conn3 later' by (rule run_dangling)
  have "snd (run st ?evs) =
          [SocketBroadcast sid (UserStatusChange u1 ''online''),
           SocketBroadcast sid (UserStatusChange u2 ''online''),
           SocketBroadcast sid (UserStatusChange u ''offline'')]"
    unfolding run_snd disc by simp
  moreover have "map_get (activeUsers (fst (run st ?evs))) u = None"
    unfolding st3 by (simp add: st3_def map_get_map_delete)
  moreover have "map_get (activeUsers (fst (run st (?evs @ later)))) u' = Some sid \<and>
                 sid \<notin> connected (fst (run st (?evs @ later)))"
    unfolding run_append_fst st3 by (rule pers)
  ultimately show "\<exists>u u'. (u = u1 \<and> u' = u2 \<or> u = u2 \<and> u' = u1) \<and>
            snd (run st ?evs) =
              [SocketBroadcast sid (UserStatusChange u1 ''online''),
               SocketBroadcast sid (UserStatusChange u2 ''online''),
               SocketBroadcast sid (UserStatusChange u ''offline'')] \<and>
            map_get (activeUsers (fst (run st ?evs))) u = None \<and>
            map_get (activeUsers (fst (run st (?evs @ later)))) u' = Some sid \<and>
            sid \<notin> connected (fst (run st (?evs @ later)))"
    using uu by blast
qed

text \<open>
  An instance: socket \<open>s\<close> announces users 1 and 2 and disconnects; only user 1 is
  broadcast offline, and after another socket has come and gone user 2 is still recorded
  with the id of \<open>s\<close>, which is no longer connected.
\<close>

theorem disconnect_removes_first_match_only_witness:
  "snd (run (fst (run init [Connection ''s'', Connection ''t'']))
          [UserOnline ''s'' (JNum 1), UserOnline ''s'' (JNum 2), Disconnect ''s'']) =
     [SocketBroadcast ''s'' (UserStatusChange (JNum 1) ''online''),
      SocketBroadcast ''s'' (UserStatusChange (JNum 2) ''online''),
      SocketBroadcast ''s'' (UserStatusChange (JNum 1) ''offline'')] \<and>
   map_get (activeUsers (fst (run (fst (run init [Connection ''s'', Connection ''t'']))
          ([UserOnline ''s'' (JNum 1), UserOnline ''s'' (JNum 2), Disconnect ''s''] @
           [UserOnline ''t'' (JNum 3), Disconnect ''t''])))) (JNum 2) = Some ''s'' \<and>
   ''s'' \<notin> connected (fst (run (fst (run init [Connection ''s'', Connection ''t'']))
          ([UserOnline ''s'' (JNum 1), UserOnline ''s'' (JNum 2), Disconnect ''s''] @
           [UserOnline ''t'' (JNum 3), Disconnect ''t''])))"
proof -
  let ?st = "fst (run init [Connection ''s'', Connection ''t''])"
  let ?evs = "[UserOnline ''s'' (JNum 1), UserOnline ''s'' (JNum 2), Disconnect ''s'']"
  let ?later = "[UserOnline ''t'' (JNum 3), Disconnect ''t'']"
  have wf: "distinct (map fst (activeUsers ?st))"
    by (simp add: run_defs)
  have conn: "''s'' \<in> connected ?st"
    by (simp add: run_defs)
  have fresh: "\<forall>e \<in> set (activeUsers ?st). snd e \<noteq> ''s''"
    by (simp add: run_defs)
  have neq: "JNum 1 \<noteq> JNum 2"
    by simp
  have later: "\<forall>e \<in> set ?later. e \<noteq> Connection ''s'' \<and>
                 (\<forall>s. e \<noteq> UserOnline s (JNum 1) \<and> e \<noteq> UserOnline s (JNum 2))"
    by simp
  have out: "snd (run ?st ?evs) =
     [SocketBroadcast ''s'' (UserStatusChange (JNum 1) ''online''),
      SocketBroadcast ''s'' (UserStatusChange (JNum 2) ''online''),
      SocketBroadcast ''s'' (UserStatusChange (JNum 1) ''offline'')]"
    by (simp add: run_defs)
  from disconnect_removes_first_match_only [OF wf conn fresh neq later]
  obtain u u' where uu: "u = JNum 1 \<and> u' = JNum 2 \<or> u = JNum 2 \<and> u' = JNum 1"
    and o: "snd (run ?st ?evs) =
              [SocketBroadcast ''s'' (UserStatusChange (JNum 1) ''online''),
               SocketBroadcast ''s'' (UserStatusChange (JNum 2) ''online''),
               SocketBroadcast ''s'' (UserStatusChange u ''offline'')]"
    and g: "map_get (activeUsers (fst (run ?st (?evs @ ?later)))) u' = Some ''s''"
    and c: "''s'' \<notin> connected (fst (run ?st (?evs @ ?later)))"
    by blast
  from o out have "u = JNum 1"
    by simp
  with uu have "u' = JNum 2"
    by simp
  with g c out show ?thesis
    by simp
qed

subsection \<open>Presence broadcasts\<close>




subsection \<open>Room-scoped sends\<close>

text \<open>
  C7. A \<open>send_message\<close> event that carries a payload, a \<open>typing_start\<close> or a \<open>typing_stop\<close>
  event from a connected socket emits exactly one event, \<open>new_message\<close>, \<open>user_typing\<close> or
  \<open>user_stop_typing\<close>, to the conversation's room with the sender excluded; and an event
  sent to a room with the sender excluded is received by exactly the sockets subscribed to
  that room other than the sender: the sender's own connection never receives it, and
  every other subscriber does.
\<close>

theorem room_send_excludes_sender:
  assumes "sid \<in> connected st"
  shows "step st (SendMessage sid (Some d)) =
           (st, [SocketTo sid (conversation_room (conversation_id d)) (NewMessage d)]) \<and>
         step st (TypingStart sid c u n) =
           (st, [SocketTo sid (conversation_room c) (UserTyping u n)]) \<and>
         step st (TypingStop sid c u) =
           (st, [SocketTo sid (conversation_room c) (UserStopTyping u)]) \<and>
         (\<forall>room ev x. x \<in> recipients st (SocketTo sid room ev) \<longleftrightarrow>
                         x \<noteq> sid \<and> (room, x) \<in> rooms st)"
  using assms
  by (auto simp: step_def is_connection_def send_message_def typing_start_def
                 typing_stop_def members_iff)

text \<open>
  An instance: of three connected sockets the first two have joined conversation 5; when the
  first one types, \<open>user_typing\<close> goes to the room of conversation 5 and the second socket
  is its only recipient.
\<close>

theorem room_send_excludes_sender_witness:
  "step (fst (run init [Connection ''s1'', Connection ''s2'', Connection ''s3'',
              JoinConversation ''s1'' (JNum 5), JoinConversation ''s2'' (JNum 5)]))
        (TypingStart ''s1'' (JNum 5) (JNum 1) (JStr ''ann'')) =
     (fst (run init [Connection ''s1'', Connection ''s2'', Connection ''s3'',
              JoinConversation ''s1'' (JNum 5), JoinConversation ''s2'' (JNum 5)]),
      [SocketTo ''s1'' ''conversation_5'' (UserTyping (JNum 1) (JStr ''ann''))]) \<and>
   recipients (fst (run init [Connection ''s1'', Connection ''s2'', Connection ''s3'',
              JoinConversation ''s1'' (JNum 5), JoinConversation ''s2'' (JNum 5)]))
        (SocketTo ''s1'' ''conversation_5'' (UserTyping (JNum 1) (JStr ''ann''))) = {''s2''}"
proof -
  let ?S = "fst (run init [Connection ''s1'', Connection ''s2'', Connection ''s3'',
              JoinConversation ''s1'' (JNum 5), JoinConversation ''s2'' (JNum 5)])"
  have a: "''s1'' \<in> connected ?S"
    by (simp add: run_defs)
  have r: "rooms ?S = {(''conversation_5'', ''s2''), (''conversation_5'', ''s1''),
                       (''s3'', ''s3''), (''s2'', ''s2''), (''s1'', ''s1'')}"
    by (simp add: run_defs)
  note t = room_send_excludes_sender [OF a, of _ "JNum 5" "JNum 1" "JStr ''ann''"]
  note q = t [THEN conjunct2, THEN conjunct2, THEN conjunct2, THEN spec, THEN spec, THEN spec]
  note s = t [THEN conjunct2, THEN conjunct1, unfolded conversation_room_5]
  have "recipients ?S
          (SocketTo ''s1'' ''conversation_5'' (UserTyping (JNum 1) (JStr ''ann''))) = {''s2''}"
  proof (rule set_eqI)
    fix x
    show "x \<in> recipients ?S
                 (SocketTo ''s1'' ''conversation_5'' (UserTyping (JNum 1) (JStr ''ann''))) \<longleftrightarrow>
          x \<in> {''s2''}"
      unfolding q r by auto
  qed
  with s show ?thesis
    by (rule conjI)
qed

text \<open>
  C5 (as amended). The \<open>send_message\<close> handler does not persist and does not wait for
  persistence. For every \<open>send_message\<close> event from a connected socket that carries a
  payload, it emits \<open>new_message\<close> with the payload as received to the conversation's room,
  the sender excluded, whether or not the message was ever stored; with no payload it
  emits nothing. Either way it leaves the state as it was, the stored messages included,
  and what it emits is the same whatever the message table holds.
\<close>

theorem send_message_broadcasts_unconditionally:
  assumes "sid \<in> connected st"
  shows "step st (SendMessage sid (Some d)) =
           (st, [SocketTo sid (conversation_room (conversation_id d)) (NewMessage d)]) \<and>
         step st (SendMessage sid None) = (st, []) \<and>
         snd (step (st\<lparr>messages_table := stored\<rparr>) (SendMessage sid data)) =
           snd (step st (SendMessage sid data))"
  using assms
  by (simp add: step_def is_connection_def send_message_def split: option.splits)

theorem send_message_broadcasts_unconditionally_witness:
  "step (fst (run init [Connection ''s1'']))
        (SendMessage ''s1'' (Some \<lparr>conversation_id = JNum 5, sender_id = JNum 1,
                                    content = JStr ''hi''\<rparr>)) =
     (fst (run init [Connection ''s1'']),
      [SocketTo ''s1'' ''conversation_5''
         (NewMessage \<lparr>conversation_id = JNum 5, sender_id = JNum 1,
                       content = JStr ''hi''\<rparr>)]) \<and>
   step (fst (run init [Connection ''s1''])) (SendMessage ''s1'' None) =
     (fst (run init [Connection ''s1'']), [])"
proof -
  have a: "''s1'' \<in> connected (fst (run init [Connection ''s1'']))"
    by (simp add: run_defs)
  show ?thesis
    using send_message_broadcasts_unconditionally [OF a,
            of "\<lparr>conversation_id = JNum 5, sender_id = JNum 1, content = JStr ''hi''\<rparr>"]
    by (simp add: conversation_room_5)
qed

text \<open>
  C5 as the specification states it fails: with an empty message table, a \<open>send_message\<close>
  event is broadcast to the other subscriber of the conversation, and the message table
  is still empty afterwards: the message that was delivered was never stored.
\<close>

theorem send_message_unpersisted_broadcast:
  "snd (run init
     [Connection ''s1'', Connection ''s2'',
      JoinConversation ''s1'' (JNum 5), JoinConversation ''s2'' (JNum 5),
      SendMessage ''s1'' (Some \<lparr>conversation_id = JNum 5, sender_id = JNum 1,
                                  content = JStr ''hi''\<rparr>)])
     = [SocketTo ''s1'' ''conversation_5''
         (NewMessage \<lparr>conversation_id = JNum 5, sender_id = JNum 1,
                       content = JStr ''hi''\<rparr>)] \<and>
   recipients (fst (run init
     [Connection ''s1'', Connection ''s2'',
      JoinConversation ''s1'' (JNum 5), JoinConversation ''s2'' (JNum 5),
      SendMessage ''s1'' (Some \<lparr>conversation_id = JNum 5, sender_id = JNum 1,
                                  content = JStr ''hi''\<rparr>)]))
     (SocketTo ''s1'' ''conversation_5''
         (NewMessage \<lparr>conversation_id = JNum 5, sender_id = JNum 1,
                       content = JStr ''hi''\<rparr>)) = {''s2''} \<and>
   messages_table (fst (run init
     [Connection ''s1'', Connection ''s2'',
      JoinConversation ''s1'' (JNum 5), JoinConversation ''s2'' (JNum 5),
      SendMessage ''s1'' (Some \<lparr>conversation_id = JNum 5, sender_id = JNum 1,
                                  content = JStr ''hi''\<rparr>)])) = []"
  by (auto simp: run_defs members_iff)

subsection \<open>Call signalling\<close>

text \<open>
  What \<open>initiate_call\<close> does is decided by the table alone: with no socket id recorded
  for the callee, the caller's socket is sent \<open>call_failed\<close> and nothing else happens; with
  one recorded, \<open>incoming_call\<close> is sent to that socket id, and no \<open>call_failed\<close>.
\<close>

lemma initiate_call_by_lookup:
  assumes "sid \<in> connected st"
  shows "(resolve (activeUsers st) calleeId = {} \<longrightarrow>
            step st (InitiateCall sid calleeId callType conversationId now) =
              (st, [SocketEmit sid (CallFailed ''User offline'')])) \<and>
         (\<forall>t \<in> resolve (activeUsers st) calleeId.
            step st (InitiateCall sid calleeId callType conversationId now) =
              (st, [IoTo t (IncomingCall (socket_userId st sid) callType conversationId
                              (digits now))]))"
  using assms
  by (auto simp: step_def is_connection_def initiate_call_def resolve_def
           split: option.splits if_splits)

text \<open>
  C6. A callee without a live connection should make \<open>initiate_call\<close> fail with
  \<open>call_failed\<close> to the caller. The code misses the case of an entry left behind by the
  cleanup loop of \<open>disconnect\<close>: socket \<open>s\<close> announces users 1 and 2 and disconnects, which
  removes the entry of user 1 only. User 2 now has no live connection (only \<open>a\<close> is
  connected), yet is still recorded with the closed socket \<open>s\<close>; a call to user 2 emits
  \<open>incoming_call\<close> to \<open>s\<close>, which nobody receives, and the caller gets no \<open>call_failed\<close>.
\<close>

theorem initiate_call_to_closed_socket:
  "snd (run init
     [Connection ''s'', Connection ''a'',
      UserOnline ''s'' (JNum 1), UserOnline ''s'' (JNum 2), Disconnect ''s'',
      InitiateCall ''a'' (JNum 2) (JStr ''video'') (JNum 5) 1700000000000])
     = [SocketBroadcast ''s'' (UserStatusChange (JNum 1) ''online''),
        SocketBroadcast ''s'' (UserStatusChange (JNum 2) ''online''),
        SocketBroadcast ''s'' (UserStatusChange (JNum 1) ''offline''),
        IoTo ''s'' (IncomingCall JUndefined (JStr ''video'') (JNum 5) ''1700000000000'')] \<and>
   connected (fst (run init
     [Connection ''s'', Connection ''a'',
      UserOnline ''s'' (JNum 1), UserOnline ''s'' (JNum 2), Disconnect ''s'',
      InitiateCall ''a'' (JNum 2) (JStr ''video'') (JNum 5) 1700000000000])) = {''a''} \<and>
   resolve (activeUsers (fst (run init
     [Connection ''s'', Connection ''a'',
      UserOnline ''s'' (JNum 1), UserOnline ''s'' (JNum 2), Disconnect ''s'',
      InitiateCall ''a'' (JNum 2) (JStr ''video'') (JNum 5) 1700000000000]))) (JNum 2)
     = {''s''} \<and>
   recipients (fst (run init
     [Connection ''s'', Connection ''a'',
      UserOnline ''s'' (JNum 1), UserOnline ''s'' (JNum 2), Disconnect ''s'',
      InitiateCall ''a'' (JNum 2) (JStr ''video'') (JNum 5) 1700000000000]))
     (IoTo ''s'' (IncomingCall JUndefined (JStr ''video'') (JNum 5) ''1700000000000'')) = {}"
  by (auto simp: run_defs digits_clock members_iff)

text \<open>
  C3 (as amended). The call operations accept, reject and end keep no call sessions: with
  any call id, known or not, they change no state and never fail. Whenever a socket is
  recorded for \<open>toUserId\<close> they send it \<open>call_accepted\<close>, \<open>call_rejected\<close> or
  \<open>call_ended\<close> with the call id given, and nothing else; when none is recorded they emit
  nothing at all. A second end with the same call id does what the first did: it sends
  \<open>call_ended\<close> again.
\<close>

theorem call_operations_keep_no_session:
  "fst (accept_call st sid callId toUserId) = st \<and>
   fst (reject_call st sid callId toUserId) = st \<and>
   fst (end_call st sid callId toUserId) = st \<and>
   end_call (fst (end_call st sid callId toUserId)) sid callId toUserId =
     end_call st sid callId toUserId \<and>
   (resolve (activeUsers st) toUserId = {} \<longrightarrow>
      snd (accept_call st sid callId toUserId) = [] \<and>
      snd (reject_call st sid callId toUserId) = [] \<and>
      snd (end_call st sid callId toUserId) = []) \<and>
   (\<forall>t \<in> resolve (activeUsers st) toUserId.
      snd (accept_call st sid callId toUserId) = [IoTo t (CallAccepted callId)] \<and>
      snd (reject_call st sid callId toUserId) = [IoTo t (CallRejected callId)] \<and>
      snd (end_call st sid callId toUserId) = [IoTo t (CallEnded callId)])"
  by (auto simp: accept_call_def reject_call_def end_call_def resolve_def
           split: option.splits if_splits)

text \<open>
  An instance: with users 1 and 2 recorded, ending a call towards user 2 a second time
  sends \<open>call_ended\<close> to the socket of user 2, and ending a call towards user 9, who is
  not recorded, emits nothing.
\<close>

theorem call_operations_keep_no_session_witness:
  "snd (end_call (fst (end_call
          (fst (run init [Connection ''a'', Connection ''b'',
                          UserOnline ''a'' (JNum 1), UserOnline ''b'' (JNum 2)]))
          ''a'' (JStr ''17'') (JNum 2))) ''a'' (JStr ''17'') (JNum 2))
     = [IoTo ''b'' (CallEnded (JStr ''17''))] \<and>
   snd (end_call
          (fst (run init [Connection ''a'', Connection ''b'',
                          UserOnline ''a'' (JNum 1), UserOnline ''b'' (JNum 2)]))
          ''a'' (JStr ''17'') (JNum 9)) = []"
proof -
  let ?S = "fst (run init [Connection ''a'', Connection ''b'',
                           UserOnline ''a'' (JNum 1), UserOnline ''b'' (JNum 2)])"
  have b: "''b'' \<in> resolve (activeUsers ?S) (JNum 2)"
    by (simp add: run_defs)
  have n: "resolve (activeUsers ?S) (JNum 9) = {}"
    by (simp add: run_defs)
  have "snd (end_call (fst (end_call ?S ''a'' (JStr ''17'') (JNum 2))) ''a'' (JStr ''17'') (JNum 2))
          = [IoTo ''b'' (CallEnded (JStr ''17''))]"
    using call_operations_keep_no_session [of ?S "''a''" "JStr ''17''" "JNum 2"] b
    by (elim conjE) (drule (1) bspec, simp only:)
  moreover have "snd (end_call ?S ''a'' (JStr ''17'') (JNum 9)) = []"
    using call_operations_keep_no_session [of ?S "''a''" "JStr ''17''" "JNum 9"] n
    by (elim conjE) (drule (1) mp, simp only:)
  ultimately show ?thesis
    by (rule conjI)
qed

text \<open>
  C3 as the specification states it fails: after a call was initiated, accepted and
  ended, a second \<open>end_call\<close> with the same call id does not fail; it sends \<open>call_ended\<close>
  to the other party once more (the last emission below).
\<close>

theorem second_end_call_emits:
  "snd (run init
     [Connection ''a'', Connection ''b'',
      UserOnline ''a'' (JNum 1), UserOnline ''b'' (JNum 2),
      InitiateCall ''a'' (JNum 2) (JStr ''video'') (JNum 5) 1700000000000,
      AcceptCall ''b'' (JStr ''1700000000000'') (JNum 1),
      EndCall ''a'' (JStr ''1700000000000'') (JNum 2),
      EndCall ''a'' (JStr ''1700000000000'') (JNum 2)])
   = [SocketBroadcast ''a'' (UserStatusChange (JNum 1) ''online''),
      SocketBroadcast ''b'' (UserStatusChange (JNum 2) ''online''),
      IoTo ''b'' (IncomingCall JUndefined (JStr ''video'') (JNum 5) ''1700000000000''),
      IoTo ''a'' (CallAccepted (JStr ''1700000000000'')),
      IoTo ''b'' (CallEnded (JStr ''1700000000000'')),
      IoTo ''b'' (CallEnded (JStr ''1700000000000''))]"
  by (simp add: run_defs digits_clock)

text \<open>
  C4 (as amended). No callee is recorded when a call is initiated (the state is
  unchanged), and \<open>accept_call\<close> does not look at who responds: from whichever connection
  it comes, it changes no state and sends \<open>call_accepted\<close> to the socket recorded for
  \<open>toUserId\<close>, whenever there is one.
\<close>

theorem accept_call_any_responder:
  "fst (initiate_call st caller calleeId callType conversationId now) = st \<and>
   accept_call st sid callId toUserId = accept_call st sid' callId toUserId \<and>
   fst (accept_call st sid callId toUserId) = st \<and>
   (\<forall>t \<in> resolve (activeUsers st) toUserId.
      snd (accept_call st sid callId toUserId) = [IoTo t (CallAccepted callId)])"
  by (auto simp: initiate_call_def accept_call_def resolve_def split: option.splits if_splits)

theorem accept_call_any_responder_witness:
  "snd (accept_call
          (fst (run init [Connection ''a'', Connection ''b'', Connection ''c'',
                          UserOnline ''a'' (JNum 1), UserOnline ''b'' (JNum 2)]))
          ''c'' (JStr ''17'') (JNum 1))
     = [IoTo ''a'' (CallAccepted (JStr ''17''))]"
proof -
  have "''a'' \<in> resolve (activeUsers (fst (run init
          [Connection ''a'', Connection ''b'', Connection ''c'',
           UserOnline ''a'' (JNum 1), UserOnline ''b'' (JNum 2)]))) (JNum 1)"
    by (simp add: run_defs)
  then show ?thesis
    using accept_call_any_responder
      [of "fst (run init [Connection ''a'', Connection ''b'', Connection ''c'',
                          UserOnline ''a'' (JNum 1), UserOnline ''b'' (JNum 2)])"
          "''a''" "JNum 2" "JStr ''video''" "JNum 5" 1700000000000
          "''c''" "JStr ''17''" "JNum 1" "''c''"]
    by blast
qed

text \<open>
  C4 as the specification states it fails: user 1 calls user 2, and the connection of
  user 3, who is not the callee, accepts; the caller is notified all the same (the last
  emission below).
\<close>

theorem accept_call_by_third_party:
  "snd (run init
     [Connection ''a'', Connection ''b'', Connection ''c'',
      UserOnline ''a'' (JNum 1), UserOnline ''b'' (JNum 2), UserOnline ''c'' (JNum 3),
      InitiateCall ''a'' (JNum 2) (JStr ''video'') (JNum 5) 1700000000000,
      AcceptCall ''c'' (JStr ''1700000000000'') (JNum 1)])
   = [SocketBroadcast ''a'' (UserStatusChange (JNum 1) ''online''),
      SocketBroadcast ''b'' (UserStatusChange (JNum 2) ''online''),
      SocketBroadcast ''c'' (UserStatusChange (JNum 3) ''online''),
      IoTo ''b'' (IncomingCall JUndefined (JStr ''video'') (JNum 5) ''1700000000000''),
      IoTo ''a'' (CallAccepted (JStr ''1700000000000''))]"
  by (simp add: run_defs digits_clock)

text \<open>
  C8. The call id is the clock reading \<open>Date.now()\<close> as a string, so two calls initiated
  in the same millisecond carry the same call id: here two different callers reach two
  different callees while the clock reads 1700000000000, and both \<open>incoming_call\<close> events
  have the call id \<open>1700000000000\<close>.
\<close>

theorem call_id_same_millisecond:
  "snd (run init
     [Connection ''a'', Connection ''b'', Connection ''c'', Connection ''d'',
      UserOnline ''b'' (JNum 2), UserOnline ''d'' (JNum 4),
      InitiateCall ''a'' (JNum 2) (JStr ''video'') (JNum 5) 1700000000000,
      InitiateCall ''c'' (JNum 4) (JStr ''audio'') (JNum 6) 1700000000000])
   = [SocketBroadcast ''b'' (UserStatusChange (JNum 2) ''online''),
      SocketBroadcast ''d'' (UserStatusChange (JNum 4) ''online''),
      IoTo ''b'' (IncomingCall JUndefined (JStr ''video'') (JNum 5) ''1700000000000''),
      IoTo ''d'' (IncomingCall JUndefined (JStr ''audio'') (JNum 6) ''1700000000000'')]"
  by (simp add: run_defs digits_clock)



end
